theory Spec2Isabelle
  imports Complex_Main
begin

section \<open>Payday scheduler: the model of \<^verbatim>\<open>salary_calculation.py\<close>\<close>

text \<open>
  The module computes, for one year, two payment dates per month (advance and salary), the
  working days paid by each, and the tax split of each payment. It reads a work calendar and
  a holiday list from a remote service. The model below follows the source function by
  function. Python exceptions are values of type \<open>error\<close>; a function that may raise
  returns \<open>error + 'a\<close>, with \<open>Inl\<close> for the exception.

  Python's \<^verbatim>\<open>float\<close> amounts are modelled by \<open>real\<close>: the arithmetic is exact, so rounding,
  overflow to infinity and NaN are outside the model. Python's \<^verbatim>\<open>int\<close> is \<open>int\<close>.
\<close>

subsection \<open>Exceptions\<close>

text \<open>
  The three places of the module that raise \<^verbatim>\<open>ValueError\<close> are told apart by their message:
  the two checks of the \<^verbatim>\<open>working_days\<close> argument in \<^verbatim>\<open>get_payday_schedule\<close>, and the
  \<^verbatim>\<open>date\<close> constructor of the standard library. \<open>TotalExceeds month total calendar_days\<close>
  carries the three numbers of the formatted message.
\<close>

datatype value_error =
    NotTwelveTuples
  | TotalExceeds int int int
  | DateOutOfRange

datatype error =
    ValueError value_error
  | KeyError
  | ZeroDivisionError
  | OverflowError
  | IndexError
  | RequestError

subsection \<open>The \<^verbatim>\<open>datetime.date\<close> of the standard library\<close>

text \<open>
  A date holds year, month and day. The constructor checks the ranges; adding or subtracting
  one day normalises the way CPython's \<^verbatim>\<open>normalize_y_m_d\<close> does for a day that is one out
  of range, and raises \<^verbatim>\<open>OverflowError\<close> outside the years 1..9999; \<^verbatim>\<open>weekday()\<close> is
  \<^verbatim>\<open>(toordinal() + 6) % 7\<close>, Monday being 0; dates compare by (year, month, day).
\<close>

record date =
  date_year :: int
  date_month :: int
  date_day :: int

definition MINYEAR :: int where
  "MINYEAR = 1"

definition MAXYEAR :: int where
  "MAXYEAR = 9999"

definition is_leap :: "int \<Rightarrow> bool" where
  "is_leap y = (y mod 4 = 0 \<and> (y mod 100 \<noteq> 0 \<or> y mod 400 = 0))"

definition days_in_month :: "int \<Rightarrow> int \<Rightarrow> int" where
  "days_in_month y m =
     (if m = 2 then (if is_leap y then 29 else 28)
      else if m = 4 \<or> m = 6 \<or> m = 9 \<or> m = 11 then 30
      else 31)"

definition days_before_year :: "int \<Rightarrow> int" where
  "days_before_year y =
     (let y1 = y - 1 in y1 * 365 + y1 div 4 - y1 div 100 + y1 div 400)"

definition DAYS_BEFORE_MONTH :: "int \<Rightarrow> int" where
  "DAYS_BEFORE_MONTH m =
     (if m \<le> 1 then 0 else if m = 2 then 31 else if m = 3 then 59 else if m = 4 then 90
      else if m = 5 then 120 else if m = 6 then 151 else if m = 7 then 181
      else if m = 8 then 212 else if m = 9 then 243 else if m = 10 then 273
      else if m = 11 then 304 else 334)"

definition days_before_month :: "int \<Rightarrow> int \<Rightarrow> int" where
  "days_before_month y m = DAYS_BEFORE_MONTH m + (if m > 2 \<and> is_leap y then 1 else 0)"

definition ymd2ord :: "int \<Rightarrow> int \<Rightarrow> int \<Rightarrow> int" where
  "ymd2ord y m d = days_before_year y + days_before_month y m + d"

definition toordinal :: "date \<Rightarrow> int" where
  "toordinal dt = ymd2ord (date_year dt) (date_month dt) (date_day dt)"

definition weekday :: "date \<Rightarrow> int" where
  "weekday dt = (toordinal dt + 6) mod 7"

definition valid_date :: "date \<Rightarrow> bool" where
  "valid_date dt =
     (MINYEAR \<le> date_year dt \<and> date_year dt \<le> MAXYEAR \<and>
      1 \<le> date_month dt \<and> date_month dt \<le> 12 \<and>
      1 \<le> date_day dt \<and> date_day dt \<le> days_in_month (date_year dt) (date_month dt))"

definition mk_date :: "int \<Rightarrow> int \<Rightarrow> int \<Rightarrow> error + date" where
  "mk_date y m d =
     (let dt = \<lparr>date_year = y, date_month = m, date_day = d\<rparr>
      in if valid_date dt then Inr dt else Inl (ValueError DateOutOfRange))"

definition date_le :: "date \<Rightarrow> date \<Rightarrow> bool" where
  "date_le a b =
     (date_year a < date_year b \<or>
      (date_year a = date_year b \<and>
       (date_month a < date_month b \<or>
        (date_month a = date_month b \<and> date_day a \<le> date_day b))))"

text \<open>\<^verbatim>\<open>d - timedelta(days=1)\<close>\<close>

definition sub_day :: "date \<Rightarrow> error + date" where
  "sub_day dt =
     (if 1 \<le> date_day dt - 1 then Inr (dt\<lparr>date_day := date_day dt - 1\<rparr>)
      else if 1 < date_month dt then
        Inr (dt\<lparr>date_month := date_month dt - 1,
                date_day := days_in_month (date_year dt) (date_month dt - 1)\<rparr>)
      else if MINYEAR < date_year dt then
        Inr \<lparr>date_year = date_year dt - 1, date_month = 12, date_day = 31\<rparr>
      else Inl OverflowError)"

text \<open>\<^verbatim>\<open>d + timedelta(days=1)\<close>\<close>

definition add_day :: "date \<Rightarrow> error + date" where
  "add_day dt =
     (if date_day dt + 1 \<le> days_in_month (date_year dt) (date_month dt) then
        Inr (dt\<lparr>date_day := date_day dt + 1\<rparr>)
      else if date_month dt < 12 then
        Inr (dt\<lparr>date_month := date_month dt + 1, date_day := 1\<rparr>)
      else if date_year dt < MAXYEAR then
        Inr \<lparr>date_year = date_year dt + 1, date_month = 1, date_day = 1\<rparr>
      else Inl OverflowError)"

subsection \<open>The data of the module\<close>

text \<open>
  The \<^verbatim>\<open>TypedDict\<close> classes. A field whose name is taken already carries its class as a
  prefix: \<^verbatim>\<open>Month.id\<close>, \<^verbatim>\<open>Month.name\<close>, \<^verbatim>\<open>Month.shortDays\<close>, \<^verbatim>\<open>Holiday.date\<close>,
  \<^verbatim>\<open>Holiday.name\<close>, \<^verbatim>\<open>HolidaysData.year\<close>, \<^verbatim>\<open>PaydayScheduleItem.date\<close>.
\<close>

record Month =
  month_id :: int
  month_name :: string
  workingDays :: int
  notWorkingDays :: int
  month_shortDays :: int
  workingHours :: int

record SalaryResult =
  before_tax :: real
  tax :: real
  after_tax :: real

record Holiday =
  holiday_date :: date
  holiday_name :: string

record HolidaysData =
  holidays_year :: int
  holidays :: "Holiday list"
  shortDays :: "Holiday list"

text \<open>\<^verbatim>\<open>Literal["advance", "salary"]\<close>\<close>

datatype it_is_kind = Advance | Salary

record PaydayScheduleItem =
  item_date :: date
  it_is :: it_is_kind
  working_days :: int
  max_working_days :: int
  item_salary :: SalaryResult
  date_was_moved :: bool

text \<open>
  The \<^verbatim>\<open>mode\<close> argument is one of two string literals: \<open>Gross\<close> is the amount before the
  tax is withheld, \<open>Net\<close> the amount on hand.
\<close>

datatype mode = Gross | Net

subsection \<open>The remote calendar service\<close>

text \<open>
  \<^verbatim>\<open>get_work_calendar\<close> and \<^verbatim>\<open>get_holidays_and_short_days\<close> fetch from the network and are
  memoised per year, so within a process each is a function of the year. What the service
  answers is a parameter of the model; a failed request is \<open>Inl RequestError\<close>. The
  calendar is a dictionary from month number to \<open>Month\<close>.
\<close>

record services =
  get_work_calendar :: "int \<Rightarrow> error + (int \<rightharpoonup> Month)"
  get_holidays_and_short_days :: "int \<Rightarrow> error + HolidaysData"

subsection \<open>Fallible steps\<close>

text \<open>Running one fallible step after another: the first exception ends the call.\<close>

definition and_then :: "error + 'a \<Rightarrow> ('a \<Rightarrow> error + 'b) \<Rightarrow> error + 'b" where
  "and_then r f = (case r of Inl e \<Rightarrow> Inl e | Inr x \<Rightarrow> f x)"

text \<open>
  Python's \<^verbatim>\<open>/\<close> on floats: a zero divisor raises \<^verbatim>\<open>ZeroDivisionError\<close>; no infinity or
  NaN comes out of a division.
\<close>

definition float_div :: "real \<Rightarrow> real \<Rightarrow> error + real" where
  "float_div a b = (if b = 0 then Inl ZeroDivisionError else Inr (a / b))"

text \<open>\<^verbatim>\<open>d[k]\<close> on a dictionary: a missing key raises \<^verbatim>\<open>KeyError\<close>.\<close>

definition dict_get :: "('k \<rightharpoonup> 'v) \<Rightarrow> 'k \<Rightarrow> error + 'v" where
  "dict_get d k = (case d k of None \<Rightarrow> Inl KeyError | Some v \<Rightarrow> Inr v)"

text \<open>
  \<^verbatim>\<open>xs[i]\<close> on a list: a negative index counts from the end and an index out of range
  raises \<^verbatim>\<open>IndexError\<close>.
\<close>

definition list_index :: "'a list \<Rightarrow> int \<Rightarrow> error + 'a" where
  "list_index xs i =
     (if 0 \<le> i \<and> i < int (length xs) then Inr (xs ! nat i)
      else if - int (length xs) \<le> i \<and> i < 0 then Inr (xs ! nat (int (length xs) + i))
      else Inl IndexError)"

subsection \<open>\<^verbatim>\<open>calculate_salary\<close>\<close>

definition TAX_RATE :: real where
  "TAX_RATE = 13 / 100"

text \<open>
  The function has no check of its own: a month missing from the calendar and a zero count
  of working days surface as the exceptions of the lookup and of the division.
\<close>

definition calculate_salary ::
  "services \<Rightarrow> int \<Rightarrow> int \<Rightarrow> int \<Rightarrow> real \<Rightarrow> mode \<Rightarrow> error + SalaryResult" where
  "calculate_salary env month year days_worked amount mode =
     and_then (get_work_calendar env year) (\<lambda>calendar.
     and_then (dict_get calendar month) (\<lambda>month_info.
     let work_days = workingDays month_info in
     and_then (float_div amount (real_of_int work_days)) (\<lambda>daily_rate.
     let period_amount = daily_rate * real_of_int days_worked in
     case mode of
       Gross \<Rightarrow>
         (let before_tax' = period_amount;
              tax' = before_tax' * TAX_RATE;
              after_tax' = before_tax' - tax'
          in Inr \<lparr>before_tax = before_tax', tax = tax', after_tax = after_tax'\<rparr>)
     | Net \<Rightarrow>
         (let after_tax' = period_amount in
          and_then (float_div after_tax' (1 - TAX_RATE)) (\<lambda>before_tax'.
          let tax' = before_tax' * TAX_RATE
          in Inr \<lparr>before_tax = before_tax', tax = tax', after_tax = after_tax'\<rparr>)))))"

subsection \<open>\<^verbatim>\<open>get_previous_working_day\<close>\<close>

text \<open>
  The two tests of the loop body, which \<^verbatim>\<open>get_payday_schedule\<close> repeats in its counting
  loop: \<^verbatim>\<open>any(h["date"] == d for h in holidays_data["holidays"])\<close> and
  \<^verbatim>\<open>d.weekday() >= 5\<close>.
\<close>

definition is_holiday :: "HolidaysData \<Rightarrow> date \<Rightarrow> bool" where
  "is_holiday holidays_data d = list_ex (\<lambda>h. holiday_date h = d) (holidays holidays_data)"

definition is_weekend :: "date \<Rightarrow> bool" where
  "is_weekend d = (weekday d \<ge> 5)"

text \<open>
  The \<^verbatim>\<open>while True\<close> loop steps one day back until the day is neither a holiday nor a
  weekend day. The step itself raises \<^verbatim>\<open>OverflowError\<close> below the first of January of
  year 1.
\<close>

function get_previous_working_day :: "date \<Rightarrow> HolidaysData \<Rightarrow> error + date" where
  "get_previous_working_day current_date holidays_data =
     (if \<not> is_holiday holidays_data current_date \<and> \<not> is_weekend current_date then
        Inr current_date
      else
        (case sub_day current_date of
           Inl e \<Rightarrow> Inl e
         | Inr previous \<Rightarrow> get_previous_working_day previous holidays_data))"
  by pat_completeness auto
termination
proof (relation "measures [\<lambda>(d, h). nat (date_year d), \<lambda>(d, h). nat (date_month d),
                           \<lambda>(d, h). nat (date_day d)]")
  show "wf (measures [\<lambda>(d, h). nat (date_year d), \<lambda>(d, h). nat (date_month d),
                      \<lambda>(d, h). nat (date_day d)])"
    by simp
next
  fix current_date :: date and holidays_data :: HolidaysData and previous :: date
  assume "sub_day current_date = Inr previous"
  then show "((previous, holidays_data), (current_date, holidays_data))
      \<in> measures [\<lambda>(d, h). nat (date_year d), \<lambda>(d, h). nat (date_month d),
                  \<lambda>(d, h). nat (date_day d)]"
    by (auto simp: sub_day_def MINYEAR_def split: if_splits)
qed

subsection \<open>\<^verbatim>\<open>get_payday_schedule\<close>\<close>

text \<open>
  \<^verbatim>\<open>(date(y, m + 1, 1) - timedelta(days=1)).day if m < 12 else 31\<close>, the expression used
  for the last day of the advance month and of the salary month.
\<close>

definition last_day_of :: "int \<Rightarrow> int \<Rightarrow> error + int" where
  "last_day_of y m =
     (if m < 12 then
        and_then (mk_date y (m + 1) 1) (\<lambda>first_of_next.
        and_then (sub_day first_of_next) (\<lambda>last. Inr (date_day last)))
      else Inr 31)"

text \<open>
  The inner \<^verbatim>\<open>while current_day <= last_day\<close> loop, which counts the days that are neither
  a holiday nor a weekend day.
\<close>

function count_working_days :: "date \<Rightarrow> date \<Rightarrow> HolidaysData \<Rightarrow> int \<Rightarrow> error + int" where
  "count_working_days current_day last_day holidays_data max_advance_working_days =
     (if date_le current_day last_day then
        (let counted =
               (if \<not> is_holiday holidays_data current_day \<and> \<not> is_weekend current_day
                then max_advance_working_days + 1 else max_advance_working_days)
         in case add_day current_day of
              Inl e \<Rightarrow> Inl e
            | Inr next_day \<Rightarrow> count_working_days next_day last_day holidays_data counted)
      else Inr max_advance_working_days)"
  by pat_completeness auto
termination
proof (relation "measures [\<lambda>(c, l, h, n). nat (date_year l + 1 - date_year c),
                           \<lambda>(c, l, h, n). nat (12 - date_month c),
                           \<lambda>(c, l, h, n). nat (31 - date_day c)]")
  show "wf (measures [\<lambda>(c, l, h, n). nat (date_year l + 1 - date_year c),
                      \<lambda>(c, l, h, n). nat (12 - date_month c),
                      \<lambda>(c, l, h, n). nat (31 - date_day c)])"
    by simp
next
  fix current_day last_day :: date and holidays_data :: HolidaysData
    and max_advance_working_days counted :: int and next_day :: date
  assume le: "date_le current_day last_day" and step: "add_day current_day = Inr next_day"
  have dim: "days_in_month (date_year current_day) (date_month current_day) \<le> 31"
    by (simp add: days_in_month_def)
  from le have yr: "date_year current_day \<le> date_year last_day"
    by (auto simp: date_le_def)
  from step dim yr
  show "((next_day, last_day, holidays_data, counted),
         (current_day, last_day, holidays_data, max_advance_working_days))
      \<in> measures [\<lambda>(c, l, h, n). nat (date_year l + 1 - date_year c),
                  \<lambda>(c, l, h, n). nat (12 - date_month c),
                  \<lambda>(c, l, h, n). nat (31 - date_day c)]"
    by (auto simp: add_day_def split: if_splits)
qed

text \<open>
  The body of the \<^verbatim>\<open>for month in range(1, 13)\<close> loop is modelled block by block, each
  block under the comment that heads it in the source.

  \<^verbatim>\<open># Calculate advance payment date\<close>: the day is capped at the last day of the month, the
  date is moved back to a working day, and the flag tells whether it moved.
\<close>

definition advance_payment_date ::
  "int \<Rightarrow> int \<Rightarrow> HolidaysData \<Rightarrow> int \<Rightarrow> error + (date \<times> bool)" where
  "advance_payment_date year advance_day holidays_data month =
     and_then (last_day_of year month) (\<lambda>last_day_of_month.
     let actual_advance_day = min advance_day last_day_of_month in
     and_then (mk_date year month actual_advance_day) (\<lambda>original_advance_date.
     and_then (get_previous_working_day original_advance_date holidays_data) (\<lambda>advance_date.
     let advance_date_was_moved = (advance_date \<noteq> original_advance_date)
     in Inr (advance_date, advance_date_was_moved))))"

text \<open>
  \<^verbatim>\<open># Calculate salary payment date (next month)\<close>: day \<^verbatim>\<open>advance_day - 15\<close>, at least 1, of
  the following month, which for December is January of the next year.
\<close>

definition salary_payment_date ::
  "int \<Rightarrow> int \<Rightarrow> HolidaysData \<Rightarrow> int \<Rightarrow> error + (date \<times> bool)" where
  "salary_payment_date year advance_day holidays_data month =
     (let salary_day = (if advance_day - 15 < 1 then 1 else advance_day - 15);
          salary_month = (if month + 1 > 12 then 1 else month + 1);
          salary_year = (if month + 1 > 12 then year + 1 else year) in
      and_then (last_day_of salary_year salary_month) (\<lambda>last_day_of_salary_month.
      let actual_salary_day = min salary_day last_day_of_salary_month in
      and_then (mk_date salary_year salary_month actual_salary_day) (\<lambda>original_salary_date.
      and_then (get_previous_working_day original_salary_date holidays_data) (\<lambda>salary_date.
      let salary_date_was_moved = (salary_date \<noteq> original_salary_date)
      in Inr (salary_date, salary_date_was_moved)))))"

text \<open>\<^verbatim>\<open># Count working days in first half of month\<close>: the days 1 to 15.\<close>

definition first_half_working_days :: "int \<Rightarrow> HolidaysData \<Rightarrow> int \<Rightarrow> error + int" where
  "first_half_working_days year holidays_data month =
     and_then (mk_date year month 1) (\<lambda>first_day.
     and_then (mk_date year month 15) (\<lambda>last_day.
     count_working_days first_day last_day holidays_data 0))"

text \<open>
  \<^verbatim>\<open># Calculate working days for each period\<close>: the pair of the caller for this month,
  checked against the working days of the calendar, or else the two maxima.
\<close>

definition period_working_days ::
  "(int \<times> int) list option \<Rightarrow> int \<Rightarrow> int \<Rightarrow> int \<Rightarrow> int \<Rightarrow> error + (int \<times> int)" where
  "period_working_days working_days_arg month calendar_working_days
       max_advance_working_days max_salary_working_days =
     (case working_days_arg of
        Some ws \<Rightarrow>
          and_then (list_index ws (month - 1)) (\<lambda>(advance_working_days, salary_working_days).
          if advance_working_days + salary_working_days > calendar_working_days then
            Inl (ValueError (TotalExceeds month (advance_working_days + salary_working_days)
                               calendar_working_days))
          else Inr (advance_working_days, salary_working_days))
      | None \<Rightarrow> Inr (max_advance_working_days, max_salary_working_days))"

text \<open>
  The whole body: the blocks above in the order of the source, then
  \<^verbatim>\<open># Calculate salary for each period\<close> and the two items that \<^verbatim>\<open># Add to schedule\<close>
  appends.
\<close>

definition payday_month ::
  "services \<Rightarrow> (int \<rightharpoonup> Month) \<Rightarrow> HolidaysData \<Rightarrow> int \<Rightarrow> int \<Rightarrow> mode \<Rightarrow> real \<Rightarrow>
   (int \<times> int) list option \<Rightarrow> int \<Rightarrow> error + (PaydayScheduleItem \<times> PaydayScheduleItem)" where
  "payday_month env calendar holidays_data year advance_day mode amount working_days_arg month =
     and_then (advance_payment_date year advance_day holidays_data month)
       (\<lambda>(advance_date, advance_date_was_moved).
     and_then (salary_payment_date year advance_day holidays_data month)
       (\<lambda>(salary_date, salary_date_was_moved).
     and_then (first_half_working_days year holidays_data month)
       (\<lambda>max_advance_working_days.
     and_then (dict_get calendar month) (\<lambda>month_info.
     let max_salary_working_days = workingDays month_info - max_advance_working_days in
     and_then (period_working_days working_days_arg month (workingDays month_info)
                 max_advance_working_days max_salary_working_days)
       (\<lambda>(advance_working_days, salary_working_days).
     and_then (calculate_salary env month year advance_working_days amount mode)
       (\<lambda>advance_salary.
     and_then (calculate_salary env month year salary_working_days amount mode)
       (\<lambda>salary_salary.
     Inr (\<lparr>item_date = advance_date, it_is = Advance,
            working_days = advance_working_days,
            max_working_days = max_advance_working_days,
            item_salary = advance_salary,
            date_was_moved = advance_date_was_moved\<rparr>,
          \<lparr>item_date = salary_date, it_is = Salary,
            working_days = salary_working_days,
            max_working_days = max_salary_working_days,
            item_salary = salary_salary,
            date_was_moved = salary_date_was_moved\<rparr>))))))))"

text \<open>The \<^verbatim>\<open>for\<close> loop over the months: each round appends its two items.\<close>

fun schedule_loop ::
  "services \<Rightarrow> (int \<rightharpoonup> Month) \<Rightarrow> HolidaysData \<Rightarrow> int \<Rightarrow> int \<Rightarrow> mode \<Rightarrow> real \<Rightarrow>
   (int \<times> int) list option \<Rightarrow> int list \<Rightarrow> PaydayScheduleItem list \<Rightarrow>
   error + PaydayScheduleItem list" where
  "schedule_loop env calendar holidays_data year advance_day mode amount working_days_arg
     [] schedule = Inr schedule"
| "schedule_loop env calendar holidays_data year advance_day mode amount working_days_arg
     (month # months) schedule =
     (case payday_month env calendar holidays_data year advance_day mode amount
             working_days_arg month of
        Inl e \<Rightarrow> Inl e
      | Inr (advance_item, salary_item) \<Rightarrow>
          schedule_loop env calendar holidays_data year advance_day mode amount
            working_days_arg months (schedule @ [advance_item, salary_item]))"

text \<open>
  The function itself: both fetches, the check of the length of \<^verbatim>\<open>working_days\<close>, then the
  loop over \<^verbatim>\<open>range(1, 13)\<close>.
\<close>

definition get_payday_schedule ::
  "services \<Rightarrow> int \<Rightarrow> int \<Rightarrow> mode \<Rightarrow> real \<Rightarrow> (int \<times> int) list option \<Rightarrow>
   error + PaydayScheduleItem list" where
  "get_payday_schedule env year advance_day mode amount working_days_arg =
     and_then (get_work_calendar env year) (\<lambda>calendar.
     and_then (get_holidays_and_short_days env year) (\<lambda>holidays_data.
     if (case working_days_arg of None \<Rightarrow> False | Some ws \<Rightarrow> length ws \<noteq> 12) then
       Inl (ValueError NotTwelveTuples)
     else
       schedule_loop env calendar holidays_data year advance_day mode amount working_days_arg
         [1..12] []))"

subsection \<open>Concrete answers of the service\<close>

text \<open>
  A service that answers for one year only, with the given counts of working days for the
  months 1, 2, ... and the New Year holidays from the first to the eighth of January of that
  year. Every other year is a failed request.
\<close>

definition calendar_of :: "int list \<Rightarrow> (int \<rightharpoonup> Month)" where
  "calendar_of counts m =
     (if 1 \<le> m \<and> m \<le> int (length counts) then
        Some \<lparr>month_id = m, month_name = [], workingDays = counts ! nat (m - 1),
              notWorkingDays = 0, month_shortDays = 0, workingHours = 0\<rparr>
      else None)"

definition new_year_holidays :: "int \<Rightarrow> HolidaysData" where
  "new_year_holidays y =
     \<lparr>holidays_year = y,
      holidays =
        map (\<lambda>d. \<lparr>holiday_date = \<lparr>date_year = y, date_month = 1, date_day = d\<rparr>,
                   holiday_name = ''New Year''\<rparr>) [1..8],
      shortDays = []\<rparr>"

definition services_of :: "int \<Rightarrow> int list \<Rightarrow> services" where
  "services_of y counts =
     \<lparr>get_work_calendar = (\<lambda>y'. if y' = y then Inr (calendar_of counts) else Inl RequestError),
      get_holidays_and_short_days =
        (\<lambda>y'. if y' = y then Inr (new_year_holidays y) else Inl RequestError)\<rparr>"

text \<open>
  The year 2025 with the working days that \<^verbatim>\<open>test_get_work_calendar\<close> asserts, and the year
  2022 with those of its production calendar.
\<close>

definition working_days_2025 :: "int list" where
  "working_days_2025 = [17, 20, 21, 22, 18, 19, 23, 21, 22, 23, 19, 22]"

definition services_2025 :: services where
  "services_2025 = services_of 2025 working_days_2025"

definition working_days_2022 :: "int list" where
  "working_days_2022 = [16, 19, 22, 21, 18, 21, 21, 23, 22, 21, 21, 22]"

definition services_2022 :: services where
  "services_2022 = services_of 2022 working_days_2022"




text \<open>A calendar for 2025 whose January has no working day at all.\<close>

definition services_idle_january :: services where
  "services_idle_january = services_of 2025 (0 # tl working_days_2025)"

subsection \<open>Notions for the statements\<close>

text \<open>A working day for the scheduler: neither in the holiday list nor a weekend day.\<close>

definition is_working_day :: "HolidaysData \<Rightarrow> date \<Rightarrow> bool" where
  "is_working_day holidays_data d = (\<not> is_holiday holidays_data d \<and> \<not> is_weekend d)"

text \<open>The calendar has all twelve months, each with a count of working days that is not zero.\<close>

definition calendar_complete :: "(int \<rightharpoonup> Month) \<Rightarrow> bool" where
  "calendar_complete calendar =
     list_all (\<lambda>m. case calendar m of None \<Rightarrow> False | Some mi \<Rightarrow> workingDays mi \<noteq> 0) [1..12]"

text \<open>
  The \<^verbatim>\<open>working_days\<close> argument passes both checks: it is absent, or it has twelve pairs
  and no pair exceeds the working days of its month.
\<close>

definition pair_fits :: "(int \<rightharpoonup> Month) \<Rightarrow> (int \<times> int) list \<Rightarrow> int \<Rightarrow> bool" where
  "pair_fits calendar ws m =
     (case calendar m of
        None \<Rightarrow> False
      | Some mi \<Rightarrow> fst (ws ! nat (m - 1)) + snd (ws ! nat (m - 1)) \<le> workingDays mi)"

definition working_days_valid :: "(int \<rightharpoonup> Month) \<Rightarrow> (int \<times> int) list option \<Rightarrow> bool" where
  "working_days_valid calendar working_days_arg =
     (case working_days_arg of
        None \<Rightarrow> True
      | Some ws \<Rightarrow> length ws = 12 \<and> list_all (pair_fits calendar ws) [1..12])"

text \<open>
  The nominal date of the salary payment of December: the day \<^verbatim>\<open>advance_day - 15\<close>, at
  least 1 and at most 31, of January of the next year.
\<close>

definition december_salary_nominal :: "int \<Rightarrow> int \<Rightarrow> date" where
  "december_salary_nominal year advance_day =
     \<lparr>date_year = year + 1, date_month = 1,
      date_day = min (if advance_day - 15 < 1 then 1 else advance_day - 15) 31\<rparr>"


text \<open>The item at a position of the schedule of a call, when the call returns one.\<close>

definition schedule_item ::
  "error + PaydayScheduleItem list \<Rightarrow> nat \<Rightarrow> PaydayScheduleItem option" where
  "schedule_item r i =
     (case r of Inl e \<Rightarrow> None | Inr s \<Rightarrow> if i < length s then Some (s ! i) else None)"

section \<open>Properties\<close>

subsection \<open>Fallible steps\<close>

lemma and_then_cong_weak [cong]: "r = r' \<Longrightarrow> and_then r f = and_then r' f"
  by simp
lemma and_then_Inl [simp]: "and_then (Inl e) f = Inl e"
  by (simp add: and_then_def)
lemma and_then_Inr [simp]: "and_then (Inr x) f = f x"
  by (simp add: and_then_def)
lemma and_then_eq_Inr: "(and_then r f = Inr y) = (\<exists>x. r = Inr x \<and> f x = Inr y)"
  by (cases r) simp_all

declare get_previous_working_day.simps [simp del]
declare count_working_days.simps [simp del]

lemma date_eq_iff:
  "(a = b) = (date_year a = date_year b \<and> date_month a = date_month b \<and> date_day a = date_day b)"
  for a b :: date
  by (cases a, cases b) simp

lemma days_in_month_bounds: "28 \<le> days_in_month y m \<and> days_in_month y m \<le> 31"
  by (simp add: days_in_month_def)

lemma days_in_month_12 [simp]: "days_in_month y 12 = 31"
  by (simp add: days_in_month_def)

lemma sub_day_valid:
  assumes "valid_date c" "sub_day c = Inr p"
  shows "valid_date p \<and> date_le p c"
proof -
  have b: "28 \<le> days_in_month (date_year c) (date_month c - 1)"
          "days_in_month (date_year c) (date_month c - 1) \<le> 31"
    using days_in_month_bounds by blast+
  from assms b show ?thesis
    by (auto simp: sub_day_def valid_date_def date_le_def MINYEAR_def MAXYEAR_def
             split: if_splits)
qed

lemma sub_day_between:
  assumes c: "valid_date c" and w: "valid_date w" and le: "date_le w c" and ne: "w \<noteq> c"
  shows "\<exists>p. sub_day c = Inr p \<and> date_le w p"
proof -
  from ne have ne': "date_year w \<noteq> date_year c \<or> date_month w \<noteq> date_month c \<or>
      date_day w \<noteq> date_day c"
    by (simp add: date_eq_iff)
  consider (day) "1 < date_day c"
    | (month) "date_day c = 1" "1 < date_month c"
    | (year) "date_day c = 1" "date_month c = 1"
    using c unfolding valid_date_def by linarith
  then show ?thesis
  proof cases
    case day
    with le ne' show ?thesis
      by (auto simp: sub_day_def date_le_def)
  next
    case month
    have "date_le w (c\<lparr>date_month := date_month c - 1,
        date_day := days_in_month (date_year c) (date_month c - 1)\<rparr>)"
    proof (cases "date_year w = date_year c \<and> date_month w = date_month c - 1")
      case True
      with w show ?thesis by (simp add: date_le_def valid_date_def)
    next
      case False
      with le ne' w month show ?thesis
        by (auto simp: date_le_def valid_date_def)
    qed
    with month show ?thesis by (simp add: sub_day_def)
  next
    case year
    have "days_in_month (date_year w) (date_month w) \<le> 31"
      using days_in_month_bounds by blast
    with year le ne' w show ?thesis
      by (auto simp: sub_day_def date_le_def valid_date_def MINYEAR_def)
  qed
qed

lemma sub_day_error:
  assumes "valid_date c" "sub_day c = Inl e"
  shows "e = OverflowError \<and> c = \<lparr>date_year = 1, date_month = 1, date_day = 1\<rparr>"
  using assms
  by (auto simp: sub_day_def valid_date_def MINYEAR_def date_eq_iff split: if_splits)

lemma first_date_least:
  assumes "valid_date w" "date_le w \<lparr>date_year = 1, date_month = 1, date_day = 1\<rparr>"
  shows "w = \<lparr>date_year = 1, date_month = 1, date_day = 1\<rparr>"
  using assms by (auto simp: valid_date_def date_le_def MINYEAR_def date_eq_iff)

lemma date_le_refl: "date_le d d"
  by (simp add: date_le_def)
lemma date_le_trans: "date_le a b \<Longrightarrow> date_le b c \<Longrightarrow> date_le a c"
  by (auto simp: date_le_def)

lemma gpwd_spec:
  assumes "valid_date start"
  shows "case get_previous_working_day start hols of
           Inr d \<Rightarrow> valid_date d \<and> date_le d start \<and> is_working_day hols d \<and>
                    (\<forall>w. valid_date w \<and> date_le w start \<and> is_working_day hols w \<longrightarrow> date_le w d)
         | Inl e \<Rightarrow> e = OverflowError \<and>
                    (\<forall>w. valid_date w \<and> date_le w start \<longrightarrow> \<not> is_working_day hols w)"
  using assms
proof (induction start hols rule: get_previous_working_day.induct)
  case (1 c hols)
  show ?case
  proof (cases "is_working_day hols c")
    case True
    then have "get_previous_working_day c hols = Inr c"
      by (simp add: is_working_day_def get_previous_working_day.simps)
    with True 1(2) show ?thesis by (simp add: date_le_refl)
  next
    case nw: False
    then have cond: "\<not> (\<not> is_holiday hols c \<and> \<not> is_weekend c)"
      by (simp add: is_working_day_def)
    show ?thesis
    proof (cases "sub_day c")
      case (Inl e)
      with cond have r: "get_previous_working_day c hols = Inl e"
        by (subst get_previous_working_day.simps) auto
      from sub_day_error[OF 1(2) Inl] first_date_least nw show ?thesis
        unfolding r by auto
    next
      case (Inr p)
      with cond have r: "get_previous_working_day c hols = get_previous_working_day p hols"
        by (subst get_previous_working_day.simps) auto
      have vp: "valid_date p" and pc: "date_le p c"
        using sub_day_valid[OF 1(2) Inr] by simp_all
      have btw: "date_le w p" if "valid_date w" "date_le w c" "w \<noteq> c" for w
        using sub_day_between[OF 1(2) that] Inr by simp
      have IH: "case get_previous_working_day p hols of
           Inr d \<Rightarrow> valid_date d \<and> date_le d p \<and> is_working_day hols d \<and>
                    (\<forall>w. valid_date w \<and> date_le w p \<and> is_working_day hols w \<longrightarrow> date_le w d)
         | Inl e \<Rightarrow> e = OverflowError \<and>
                    (\<forall>w. valid_date w \<and> date_le w p \<longrightarrow> \<not> is_working_day hols w)"
        using 1(1)[OF cond Inr vp] .
      show ?thesis
      proof (cases "get_previous_working_day p hols")
        case (Inl e)
        with IH btw nw show ?thesis unfolding r by auto
      next
        case (Inr d)
        with IH btw nw pc show ?thesis unfolding r
          by (auto intro: date_le_trans)
      qed
    qed
  qed
qed


subsection \<open>One day is one ordinal\<close>

text \<open>
  The standard library defines \<^verbatim>\<open>d - timedelta(days=1)\<close> and \<^verbatim>\<open>d + timedelta(days=1)\<close>
  through the ordinal of the date. The steps of the model, which move through the fields,
  change the ordinal of a valid date by exactly one, so the weekday advances with them.
\<close>

lemma div_predecessor:
  fixes y k :: int
  assumes "0 < k"
  shows "y div k = (y - 1) div k + (if y mod k = 0 then 1 else 0)"
proof (cases "y mod k = 0")
  case True
  have "y = k * (y div k) + y mod k" by simp
  with True have "y - 1 = k * (y div k - 1) + (k - 1)" by (simp add: algebra_simps)
  then have "(y - 1) div k = y div k - 1"
    by (rule int_div_pos_eq) (use assms in simp_all)
  with True show ?thesis by simp
next
  case False
  have "y = k * (y div k) + y mod k" by simp
  then have "y - 1 = k * (y div k) + (y mod k - 1)" by simp
  moreover have "0 \<le> y mod k - 1" "y mod k - 1 < k"
    using False assms pos_mod_sign[of k y] pos_mod_bound[of k y] by linarith+
  ultimately have "(y - 1) div k = y div k"
    by (rule int_div_pos_eq)
  with False show ?thesis by simp
qed

lemma mod_400_100: "(y::int) mod 400 = 0 \<Longrightarrow> y mod 100 = 0"
  by (simp add: mod_eq_0_iff_dvd) (rule dvd_trans[of _ 400], simp_all)

lemma mod_100_4: "(y::int) mod 100 = 0 \<Longrightarrow> y mod 4 = 0"
  by (simp add: mod_eq_0_iff_dvd) (rule dvd_trans[of _ 100], simp_all)


lemma days_before_next_month:
  assumes "1 \<le> m" "m < 12"
  shows "days_before_month y (m + 1) = days_before_month y m + days_in_month y m"
proof -
  from assms have "m = 1 \<or> m = 2 \<or> m = 3 \<or> m = 4 \<or> m = 5 \<or> m = 6 \<or> m = 7 \<or>
      m = 8 \<or> m = 9 \<or> m = 10 \<or> m = 11"
    by arith
  then show ?thesis
    by (elim disjE)
       (simp_all add: days_before_month_def DAYS_BEFORE_MONTH_def days_in_month_def)
qed

lemma days_before_next_year:
  "days_before_year (y + 1) = days_before_year y + (if is_leap y then 366 else 365)"
proof -
  have d4: "y div 4 = (y - 1) div 4 + (if y mod 4 = 0 then 1 else 0)"
    and d100: "y div 100 = (y - 1) div 100 + (if y mod 100 = 0 then 1 else 0)"
    and d400: "y div 400 = (y - 1) div 400 + (if y mod 400 = 0 then 1 else 0)"
    by (rule div_predecessor, simp)+
  have e: "days_before_year (y + 1) = y * 365 + y div 4 - y div 100 + y div 400"
    by (simp add: days_before_year_def)
  have f: "days_before_year y =
      (y - 1) * 365 + (y - 1) div 4 - (y - 1) div 100 + (y - 1) div 400"
    by (simp add: days_before_year_def Let_def)
  show ?thesis
  proof (cases "y mod 4 = 0")
    case False
    with mod_400_100 [of y] mod_100_4 [of y] have "y mod 100 \<noteq> 0" "y mod 400 \<noteq> 0"
      by auto
    with False show ?thesis
      unfolding e f is_leap_def d4 d100 d400 by (simp add: algebra_simps)
  next
    case 4: True
    show ?thesis
    proof (cases "y mod 100 = 0")
      case False
      with mod_400_100 [of y] have "y mod 400 \<noteq> 0" by auto
      with 4 False show ?thesis
        unfolding e f is_leap_def d4 d100 d400 by (simp add: algebra_simps)
    next
      case 100: True
      show ?thesis
      proof (cases "y mod 400 = 0")
        case True
        with 4 100 show ?thesis
          unfolding e f is_leap_def d4 d100 d400 by (simp add: algebra_simps)
      next
        case False
        with 4 100 show ?thesis
          unfolding e f is_leap_def d4 d100 d400 by (simp add: algebra_simps)
      qed
    qed
  qed
qed

lemma sub_day_toordinal:
  assumes "valid_date c" "sub_day c = Inr p"
  shows "toordinal p = toordinal c - 1"
proof -
  consider (day) "1 < date_day c"
    | (month) "date_day c = 1" "1 < date_month c"
    | (year) "date_day c = 1" "date_month c = 1"
    using assms(1) unfolding valid_date_def by linarith
  then show ?thesis
  proof cases
    case day
    with assms(2) show ?thesis by (auto simp: sub_day_def toordinal_def ymd2ord_def)
  next
    case month
    with assms(1) have m: "1 \<le> date_month c - 1" "date_month c - 1 < 12"
      by (simp_all add: valid_date_def)
    from days_before_next_month[OF m, of "date_year c"] month assms(2) show ?thesis
      by (auto simp: sub_day_def toordinal_def ymd2ord_def)
  next
    case year
    from days_before_next_year[of "date_year c - 1"] year assms(2) show ?thesis
      by (auto simp: sub_day_def toordinal_def ymd2ord_def days_before_month_def
            DAYS_BEFORE_MONTH_def split: if_splits)
  qed
qed

lemma add_day_toordinal:
  assumes "valid_date c" "add_day c = Inr n"
  shows "toordinal n = toordinal c + 1"
proof -
  consider (day) "date_day c + 1 \<le> days_in_month (date_year c) (date_month c)"
    | (month) "date_day c = days_in_month (date_year c) (date_month c)" "date_month c < 12"
    | (year) "date_day c = 31" "date_month c = 12"
    using assms(1) days_in_month_12 [of "date_year c"] unfolding valid_date_def
    by (cases "date_month c = 12") (simp, linarith, linarith)
  then show ?thesis
  proof cases
    case day
    with assms(2) show ?thesis by (auto simp: add_day_def toordinal_def ymd2ord_def)
  next
    case month
    with assms(1) have m: "1 \<le> date_month c" by (simp add: valid_date_def)
    from days_before_next_month[OF m month(2), of "date_year c"] month assms(2) show ?thesis
      by (auto simp: add_day_def toordinal_def ymd2ord_def)
  next
    case year
    from days_before_next_year[of "date_year c"] year assms(2) show ?thesis
      by (auto simp: add_day_def toordinal_def ymd2ord_def days_before_month_def
            DAYS_BEFORE_MONTH_def split: if_splits)
  qed
qed

subsection \<open>The salary calculator\<close>

lemmas services_eval =
  services_2025_def services_2022_def services_idle_january_def services_of_def
  calendar_of_def working_days_2025_def working_days_2022_def

lemmas calculate_salary_eval =
  calculate_salary_def dict_get_def float_div_def TAX_RATE_def services_eval

text \<open>What a call returns, and when.\<close>

lemma calculate_salary_Inr:
  "calculate_salary env month year days_worked amount mode = Inr r \<longleftrightarrow>
     (\<exists>calendar month_info.
        get_work_calendar env year = Inr calendar \<and> calendar month = Some month_info \<and>
        workingDays month_info \<noteq> 0 \<and>
        r = (let period_amount =
                   amount / real_of_int (workingDays month_info) * real_of_int days_worked
             in case mode of
                  Gross \<Rightarrow> \<lparr>before_tax = period_amount, tax = period_amount * TAX_RATE,
                              after_tax = period_amount - period_amount * TAX_RATE\<rparr>
                | Net \<Rightarrow> \<lparr>before_tax = period_amount / (1 - TAX_RATE),
                            tax = period_amount / (1 - TAX_RATE) * TAX_RATE,
                            after_tax = period_amount\<rparr>))"
proof (cases "get_work_calendar env year")
  case (Inl e)
  then show ?thesis by (simp add: calculate_salary_def)
next
  case cal: (Inr calendar)
  show ?thesis
  proof (cases "calendar month")
    case None
    with cal show ?thesis by (simp add: calculate_salary_def dict_get_def)
  next
    case (Some month_info)
    show ?thesis
    proof (cases "workingDays month_info = 0")
      case True
      with cal Some show ?thesis
        by (simp add: calculate_salary_def dict_get_def float_div_def)
    next
      case False
      with cal Some show ?thesis
        by (cases mode)
           (auto simp: calculate_salary_def dict_get_def float_div_def Let_def TAX_RATE_def)
    qed
  qed
qed








text \<open>
  Claim C7, as stated: with a zero count of working days \<^verbatim>\<open>calculate_salary\<close> guards the
  division itself and fails with a descriptive error. The function has no such guard: for
  a January without working days the call ends with the \<^verbatim>\<open>ZeroDivisionError\<close> that the
  division operator raises, which is the outcome of the bare division too.
\<close>

theorem zero_working_days_counterexample:
  "calculate_salary services_idle_january 1 2025 5 60000 Gross = Inl ZeroDivisionError \<and>
   float_div 60000 (real_of_int 0) = Inl ZeroDivisionError"
  by (simp add: calculate_salary_eval)

text \<open>
  Claim C7, amended. When the count of working days of the month is zero, the division of
  the amount by it raises \<^verbatim>\<open>ZeroDivisionError\<close>, and that exception ends the call for
  every amount, number of days and mode: no result is returned, so no infinity or NaN.
\<close>

theorem zero_working_days_raises:
  "get_work_calendar env year = Inr calendar \<Longrightarrow> calendar month = Some month_info \<Longrightarrow>
   workingDays month_info = 0 \<Longrightarrow>
   calculate_salary env month year days_worked amount mode = Inl ZeroDivisionError"
  by (simp add: calculate_salary_def dict_get_def float_div_def)

theorem zero_working_days_raises_witness:
  "get_work_calendar services_idle_january 2025 =
     Inr (calendar_of (0 # tl working_days_2025)) \<and>
   calculate_salary services_idle_january 1 2025 17 60000 Net = Inl ZeroDivisionError"
  using zero_working_days_raises [of services_idle_january 2025
      "calendar_of (0 # tl working_days_2025)" 1
      "\<lparr>month_id = 1, month_name = [], workingDays = 0, notWorkingDays = 0,
        month_shortDays = 0, workingHours = 0\<rparr>" 17 60000 Net]
  by (simp add: services_eval)

subsection \<open>The structure of a schedule\<close>

text \<open>
  A month whose body returns went through every block; a schedule that is returned holds,
  for each month, the two items of that month's body at the positions \<open>2 * m - 2\<close> and
  \<open>2 * m - 1\<close>.
\<close>

lemma period_working_days_le:
  assumes "period_working_days wda month cwd max_adv (cwd - max_adv) = Inr (a, s)"
  shows "a + s \<le> cwd"
  using assms
  by (auto simp: period_working_days_def and_then_eq_Inr split: option.splits if_splits)

lemma payday_month_InrE:
  assumes "payday_month env calendar hols year advance_day mode amount wda month = Inr (a, b)"
  obtains advance_date advance_moved salary_date salary_moved max_adv month_info adv_days sal_days
      advance_salary salary_salary
  where "advance_payment_date year advance_day hols month = Inr (advance_date, advance_moved)"
    and "salary_payment_date year advance_day hols month = Inr (salary_date, salary_moved)"
    and "first_half_working_days year hols month = Inr max_adv"
    and "calendar month = Some month_info"
    and "period_working_days wda month (workingDays month_info) max_adv
           (workingDays month_info - max_adv) = Inr (adv_days, sal_days)"
    and "calculate_salary env month year adv_days amount mode = Inr advance_salary"
    and "calculate_salary env month year sal_days amount mode = Inr salary_salary"
    and "a = \<lparr>item_date = advance_date, it_is = Advance, working_days = adv_days,
              max_working_days = max_adv, item_salary = advance_salary,
              date_was_moved = advance_moved\<rparr>"
    and "b = \<lparr>item_date = salary_date, it_is = Salary, working_days = sal_days,
              max_working_days = workingDays month_info - max_adv,
              item_salary = salary_salary, date_was_moved = salary_moved\<rparr>"
  using assms
  by (auto simp: payday_month_def and_then_eq_Inr Let_def dict_get_def split: option.splits)

lemma schedule_loop_Inr:
  assumes "schedule_loop env calendar hols year advance_day mode amount wda months acc = Inr s"
  shows "length s = length acc + 2 * length months \<and>
     (\<forall>i < length acc. s ! i = acc ! i) \<and>
     (\<forall>k < length months.
        payday_month env calendar hols year advance_day mode amount wda (months ! k) =
          Inr (s ! (length acc + 2 * k), s ! (length acc + 2 * k + 1)))"
  using assms
proof (induction months arbitrary: acc)
  case Nil
  then show ?case by simp
next
  case (Cons m ms)
  from Cons.prems obtain a b where
    ab: "payday_month env calendar hols year advance_day mode amount wda m = Inr (a, b)" and
    rest: "schedule_loop env calendar hols year advance_day mode amount wda ms (acc @ [a, b])
             = Inr s"
    by (auto split: sum.splits)
  from Cons.IH[OF rest] have
    len: "length s = length acc + 2 + 2 * length ms" and
    pre: "\<And>i. i < length acc + 2 \<Longrightarrow> s ! i = (acc @ [a, b]) ! i" and
    nxt: "\<And>k. k < length ms \<Longrightarrow>
        payday_month env calendar hols year advance_day mode amount wda (ms ! k) =
          Inr (s ! (length acc + 2 + 2 * k), s ! (length acc + 2 + 2 * k + 1))"
    by auto
  have s0: "s ! length acc = a" using pre[of "length acc"] by simp
  have s1: "s ! (length acc + 1) = b" using pre[of "length acc + 1"] by (simp add: nth_append)
  have old: "s ! i = acc ! i" if "i < length acc" for i
    using pre[of i] that by (simp add: nth_append)
  have months: "payday_month env calendar hols year advance_day mode amount wda ((m # ms) ! k) =
          Inr (s ! (length acc + 2 * k), s ! (length acc + 2 * k + 1))"
    if "k < length (m # ms)" for k
  proof (cases k)
    case 0
    with ab s0 s1 show ?thesis by simp
  next
    case (Suc k')
    with that nxt[of k'] show ?thesis by (simp add: algebra_simps)
  qed
  from len old months show ?case by simp
qed

lemma get_payday_schedule_InrE:
  assumes "get_payday_schedule env year advance_day mode amount wda = Inr s"
  obtains calendar hols where
    "get_work_calendar env year = Inr calendar"
    "get_holidays_and_short_days env year = Inr hols"
    "length s = 24"
    "\<And>m. 1 \<le> m \<Longrightarrow> m \<le> 12 \<Longrightarrow>
       payday_month env calendar hols year advance_day mode amount wda m =
         Inr (s ! nat (2 * m - 2), s ! nat (2 * m - 1))"
proof -
  from assms obtain calendar hols where
    c: "get_work_calendar env year = Inr calendar" and
    h: "get_holidays_and_short_days env year = Inr hols" and
    l: "schedule_loop env calendar hols year advance_day mode amount wda [1..12] [] = Inr s"
    by (auto simp: get_payday_schedule_def and_then_eq_Inr split: if_splits)
  from schedule_loop_Inr[OF l] have
    len: "length s = 24" and
    ms: "\<And>k. k < 12 \<Longrightarrow>
        payday_month env calendar hols year advance_day mode amount wda ([1..12] ! k) =
          Inr (s ! (2 * k), s ! (2 * k + 1))"
    by auto
  have "payday_month env calendar hols year advance_day mode amount wda m =
         Inr (s ! nat (2 * m - 2), s ! nat (2 * m - 1))" if "1 \<le> m" "m \<le> 12" for m
  proof -
    have k: "nat (m - 1) < 12" using that by simp
    have "[1..12] ! nat (m - 1) = m" using that by (simp add: nth_upto)
    moreover have "2 * nat (m - 1) = nat (2 * m - 2)" "2 * nat (m - 1) + 1 = nat (2 * m - 1)"
      using that by simp_all
    ultimately show ?thesis using ms[OF k] by simp
  qed
  with c h len show ?thesis using that by blast
qed

subsection \<open>When a call returns\<close>

text \<open>
  Each block of the loop body returns for a year from 1 to 9998, a month from 1 to 12 and an
  advance day of at least 1, provided some working day lies on or before the first of
  January of the year (so that no search runs below the first date). With a complete
  calendar and a \<^verbatim>\<open>working_days\<close> argument that passes its checks, the whole call returns.
\<close>

lemma year_bounds: "MINYEAR = 1" "MAXYEAR = 9999"
  by (simp_all add: MINYEAR_def MAXYEAR_def)

lemma last_day_of_eq:
  assumes "1 \<le> y" "y \<le> 9999" "1 \<le> m" "m \<le> 12"
  shows "last_day_of y m = Inr (days_in_month y m)"
proof (cases "m < 12")
  case True
  have "28 \<le> days_in_month y (m + 1)" using days_in_month_bounds by blast
  with assms True show ?thesis
    by (simp add: last_day_of_def mk_date_def valid_date_def sub_day_def year_bounds)
next
  case False
  with assms have "m = 12" by simp
  then show ?thesis by (simp add: last_day_of_def)
qed

lemma mk_date_valid:
  "mk_date y m d = Inr dt \<longleftrightarrow>
     dt = \<lparr>date_year = y, date_month = m, date_day = d\<rparr> \<and> valid_date dt"
  by (auto simp: mk_date_def Let_def)

lemma gpwd_returns:
  assumes "valid_date start" "valid_date w" "date_le w start" "is_working_day hols w"
  shows "\<exists>d. get_previous_working_day start hols = Inr d"
  using gpwd_spec[OF assms(1), of hols] assms(2-4)
  by (cases "get_previous_working_day start hols") auto

lemma advance_payment_date_returns:
  assumes y: "1 \<le> year" "year \<le> 9999" and m: "1 \<le> month" "month \<le> 12"
    and a: "1 \<le> advance_day"
    and w: "valid_date w" "date_le w \<lparr>date_year = year, date_month = 1, date_day = 1\<rparr>"
      "is_working_day hols w"
  shows "\<exists>r. advance_payment_date year advance_day hols month = Inr r"
proof -
  let ?d = "min advance_day (days_in_month year month)"
  let ?start = "\<lparr>date_year = year, date_month = month, date_day = ?d\<rparr>"
  have "28 \<le> days_in_month year month" using days_in_month_bounds by blast
  with y m a have v: "valid_date ?start"
    by (simp add: valid_date_def year_bounds)
  have "date_le \<lparr>date_year = year, date_month = 1, date_day = 1\<rparr> ?start"
    using m a \<open>28 \<le> days_in_month year month\<close> by (auto simp: date_le_def)
  with w(2) have "date_le w ?start" by (rule date_le_trans)
  from gpwd_returns[OF v w(1) this w(3)] obtain d where
    "get_previous_working_day ?start hols = Inr d" ..
  with v show ?thesis
    by (simp add: advance_payment_date_def last_day_of_eq[OF y m] mk_date_def Let_def)
qed

lemma salary_payment_date_returns:
  assumes y: "1 \<le> year" "year \<le> 9998" and m: "1 \<le> month" "month \<le> 12"
    and w: "valid_date w" "date_le w \<lparr>date_year = year, date_month = 1, date_day = 1\<rparr>"
      "is_working_day hols w"
  shows "\<exists>r. salary_payment_date year advance_day hols month = Inr r"
proof -
  define sd where "sd = (if advance_day - 15 < 1 then 1 else advance_day - 15)"
  define sm where "sm = (if month + 1 > 12 then 1 else month + 1)"
  define sy where "sy = (if month + 1 > 12 then year + 1 else year)"
  define start where
    "start = \<lparr>date_year = sy, date_month = sm, date_day = min sd (days_in_month sy sm)\<rparr>"
  have eq: "salary_payment_date year advance_day hols month =
      and_then (last_day_of sy sm) (\<lambda>last.
      and_then (mk_date sy sm (min sd last)) (\<lambda>original.
      and_then (get_previous_working_day original hols) (\<lambda>salary_date.
      Inr (salary_date, salary_date \<noteq> original))))"
    by (simp only: salary_payment_date_def Let_def sd_def sm_def sy_def)
  have sy: "1 \<le> sy" "sy \<le> 9999" "year \<le> sy" and sm: "1 \<le> sm" "sm \<le> 12"
    using y m by (auto simp: sy_def sm_def)
  have dim: "28 \<le> days_in_month sy sm" using days_in_month_bounds by blast
  have d1: "1 \<le> min sd (days_in_month sy sm)" using dim by (auto simp: sd_def)
  have v: "valid_date start"
    using sy sm d1 by (simp add: valid_date_def year_bounds start_def)
  have "date_le \<lparr>date_year = year, date_month = 1, date_day = 1\<rparr> start"
    using sy sm d1 by (auto simp: date_le_def start_def)
  with w(2) have "date_le w start" by (rule date_le_trans)
  from gpwd_returns[OF v w(1) this w(3)] obtain d where
    "get_previous_working_day start hols = Inr d" ..
  with v show ?thesis
    unfolding eq by (simp add: last_day_of_eq[OF sy(1,2) sm] mk_date_def start_def)
qed

lemma count_working_days_returns:
  assumes "1 \<le> d" "d \<le> 16"
  shows "\<exists>k. count_working_days \<lparr>date_year = y, date_month = m, date_day = d\<rparr>
           \<lparr>date_year = y, date_month = m, date_day = 15\<rparr> hols n = Inr k \<and> n \<le> k"
  using assms
proof (induction "nat (16 - d)" arbitrary: d n)
  case 0
  then have "d = 16" by simp
  then show ?case
    by (subst count_working_days.simps) (simp add: date_le_def)
next
  case (Suc j)
  then have d: "d \<le> 15" "1 \<le> d" by simp_all
  have "28 \<le> days_in_month y m" using days_in_month_bounds by blast
  with d have step: "add_day \<lparr>date_year = y, date_month = m, date_day = d\<rparr> =
      Inr \<lparr>date_year = y, date_month = m, date_day = d + 1\<rparr>"
    by (simp add: add_day_def)
  have le: "date_le \<lparr>date_year = y, date_month = m, date_day = d\<rparr>
      \<lparr>date_year = y, date_month = m, date_day = 15\<rparr>"
    using d by (simp add: date_le_def)
  have j: "j = nat (16 - (d + 1))" using Suc.hyps(2) by simp
  have d': "1 \<le> d + 1" "d + 1 \<le> 16" using d by simp_all
  from Suc.hyps(1)[OF j d'] show ?case
    apply (subst count_working_days.simps)
    apply (simp add: le step Let_def)
    by (metis add_increasing2 le_add_same_cancel1 zero_less_one_class.zero_le_one dual_order.trans)
qed


lemma first_half_working_days_returns:
  assumes "1 \<le> year" "year \<le> 9999" "1 \<le> month" "month \<le> 12"
  shows "\<exists>k. first_half_working_days year hols month = Inr k \<and> 0 \<le> k"
proof -
  have "28 \<le> days_in_month year month" using days_in_month_bounds by blast
  with assms have
    "mk_date year month 1 = Inr \<lparr>date_year = year, date_month = month, date_day = 1\<rparr>"
    "mk_date year month 15 = Inr \<lparr>date_year = year, date_month = month, date_day = 15\<rparr>"
    by (simp_all add: mk_date_def valid_date_def year_bounds)
  with count_working_days_returns[of 1 year month hols 0] show ?thesis
    by (simp add: first_half_working_days_def)
qed

lemma calendar_completeD:
  assumes "calendar_complete calendar" "1 \<le> m" "m \<le> 12"
  shows "\<exists>mi. calendar m = Some mi \<and> workingDays mi \<noteq> 0"
proof -
  from assms(2,3) have "m \<in> set [1..12]" by simp
  with assms(1) have
    "case calendar m of None \<Rightarrow> False | Some mi \<Rightarrow> workingDays mi \<noteq> 0"
    unfolding calendar_complete_def list_all_iff by blast
  then show ?thesis by (cases "calendar m") auto
qed

lemma working_days_validD:
  assumes "working_days_valid calendar (Some ws)" "1 \<le> m" "m \<le> 12"
  shows "length ws = 12 \<and> pair_fits calendar ws m"
proof -
  from assms(2,3) have "m \<in> set [1..12]" by simp
  moreover from assms(1) have "length ws = 12" "\<forall>k \<in> set [1..12]. pair_fits calendar ws k"
    unfolding working_days_valid_def list_all_iff by simp_all
  ultimately show ?thesis by blast
qed

lemma list_index_month:
  assumes "length ws = 12" "1 \<le> m" "m \<le> 12"
  shows "list_index ws (m - 1) = Inr (ws ! nat (m - 1))"
  using assms by (simp add: list_index_def)

lemma period_working_days_returns:
  assumes "wda = None \<or> (\<exists>ws. wda = Some ws \<and> length ws = 12 \<and> pair_fits calendar ws m)"
    and "calendar m = Some mi" and "1 \<le> m" "m \<le> 12"
  shows "\<exists>r. period_working_days wda m (workingDays mi) a b = Inr r"
  using assms
  by (auto simp: period_working_days_def list_index_month pair_fits_def split_beta)


lemma calculate_salary_returns:
  assumes "get_work_calendar env year = Inr calendar" "calendar month = Some mi"
    "workingDays mi \<noteq> 0"
  shows "\<exists>r. calculate_salary env month year days_worked amount mode = Inr r"
  using assms by (auto simp: calculate_salary_Inr)

lemma payday_month_returns:
  assumes y: "1 \<le> year" "year \<le> 9998" and m: "1 \<le> month" "month \<le> 12"
    and a: "1 \<le> advance_day"
    and w: "valid_date w" "date_le w \<lparr>date_year = year, date_month = 1, date_day = 1\<rparr>"
      "is_working_day hols w"
    and c: "get_work_calendar env year = Inr calendar" "calendar month = Some mi"
      "workingDays mi \<noteq> 0"
    and o: "wda = None \<or> (\<exists>ws. wda = Some ws \<and> length ws = 12 \<and> pair_fits calendar ws month)"
  shows "\<exists>r. payday_month env calendar hols year advance_day mode amount wda month = Inr r"
proof -
  from y have y': "year \<le> 9999" by simp
  obtain ad am where 1: "advance_payment_date year advance_day hols month = Inr (ad, am)"
    using advance_payment_date_returns[OF y(1) y' m a w] by fastforce
  obtain sd sm where 2: "salary_payment_date year advance_day hols month = Inr (sd, sm)"
    using salary_payment_date_returns[OF y m w] by fastforce
  obtain k where 3: "first_half_working_days year hols month = Inr k"
    using first_half_working_days_returns[OF y(1) y' m] by blast
  obtain p q where 4: "period_working_days wda month (workingDays mi) k (workingDays mi - k) =
      Inr (p, q)"
    using period_working_days_returns[OF o c(2) m] by fastforce
  obtain r1 where 5: "calculate_salary env month year p amount mode = Inr r1"
    using calculate_salary_returns[OF c] by blast
  obtain r2 where 6: "calculate_salary env month year q amount mode = Inr r2"
    using calculate_salary_returns[OF c] by blast
  show ?thesis
    by (simp add: payday_month_def 1 2 3 4 5 6 c(2) dict_get_def)
qed


lemma schedule_loop_returns:
  assumes "\<And>m. m \<in> set months \<Longrightarrow>
     \<exists>r. payday_month env calendar hols year advance_day mode amount wda m = Inr r"
  shows "\<exists>s. schedule_loop env calendar hols year advance_day mode amount wda months acc = Inr s"
  using assms
proof (induction months arbitrary: acc)
  case Nil
  then show ?case by simp
next
  case (Cons m ms)
  from Cons.prems[of m] obtain a b where
    "payday_month env calendar hols year advance_day mode amount wda m = Inr (a, b)"
    by fastforce
  moreover from Cons.IH[of "acc @ [a, b]"] Cons.prems obtain s where
    "schedule_loop env calendar hols year advance_day mode amount wda ms (acc @ [a, b]) = Inr s"
    by auto
  ultimately show ?case by simp
qed



lemma get_payday_schedule_returns:
  assumes y: "1 \<le> year" "year \<le> 9998" and a: "1 \<le> advance_day"
    and w: "valid_date w" "date_le w \<lparr>date_year = year, date_month = 1, date_day = 1\<rparr>"
      "is_working_day hols w"
    and f: "get_work_calendar env year = Inr calendar"
      "get_holidays_and_short_days env year = Inr hols"
    and c: "calendar_complete calendar"
    and o: "working_days_valid calendar wda"
  shows "\<exists>s. get_payday_schedule env year advance_day mode amount wda = Inr s"
proof -
  have len: "\<not> (case wda of None \<Rightarrow> False | Some ws \<Rightarrow> length ws \<noteq> 12)"
    using o by (auto simp: working_days_valid_def split: option.splits)
  have "\<exists>r. payday_month env calendar hols year advance_day mode amount wda m = Inr r"
    if "m \<in> set [1..12]" for m
  proof -
    from that have m: "1 \<le> m" "m \<le> 12" by simp_all
    from calendar_completeD[OF c m] obtain mi where
      mi: "calendar m = Some mi" "workingDays mi \<noteq> 0" by blast
    have "wda = None \<or> (\<exists>ws. wda = Some ws \<and> length ws = 12 \<and> pair_fits calendar ws m)"
      using o working_days_validD[OF _ m] by (cases wda) auto
    from payday_month_returns[OF y m a w f(1) mi this] show ?thesis .
  qed
  from schedule_loop_returns[of "[1..12]", OF this] len show ?thesis
    by (simp add: get_payday_schedule_def f)
qed

subsection \<open>Which exception ends a call\<close>















subsection \<open>The salary payment of December\<close>

text \<open>
  The salary date of December is the result of the backward search from the nominal date in
  January of the next year; it stays in that January exactly when one of the days from the
  first to the nominal day is a working day.
\<close>

lemma last_day_of_january:
  assumes "last_day_of y 1 = Inr l"
  shows "l = 31 \<and> 1 \<le> y \<and> y \<le> 9999"
  using assms
  by (auto simp: last_day_of_def and_then_eq_Inr mk_date_valid sub_day_def valid_date_def
        year_bounds days_in_month_def split: if_splits)

lemma december_salary_date_search:
  assumes "salary_payment_date year advance_day hols 12 = Inr (d, moved)"
  shows "valid_date (december_salary_nominal year advance_day) \<and>
     get_previous_working_day (december_salary_nominal year advance_day) hols = Inr d"
proof -
  define sd where "sd = (if advance_day - 15 < 1 then 1 else advance_day - 15)"
  have eq: "salary_payment_date year advance_day hols 12 =
      and_then (last_day_of (year + 1) 1) (\<lambda>last.
      and_then (mk_date (year + 1) 1 (min sd last)) (\<lambda>original.
      and_then (get_previous_working_day original hols) (\<lambda>salary_date.
      Inr (salary_date, salary_date \<noteq> original))))"
    unfolding salary_payment_date_def Let_def sd_def by simp
  from assms obtain l original where
    l: "last_day_of (year + 1) 1 = Inr l" and
    o: "mk_date (year + 1) 1 (min sd l) = Inr original" and
    g: "get_previous_working_day original hols = Inr d"
    unfolding eq by (auto simp: and_then_eq_Inr)
  from last_day_of_january[OF l] have "l = 31" by simp
  with o have "original = \<lparr>date_year = year + 1, date_month = 1, date_day = min sd 31\<rparr>"
    "valid_date original"
    by (auto simp: mk_date_valid)
  moreover have "december_salary_nominal year advance_day =
      \<lparr>date_year = year + 1, date_month = 1, date_day = min sd 31\<rparr>"
    unfolding december_salary_nominal_def sd_def ..
  ultimately show ?thesis using g by simp
qed

lemma december_salary_item:
  assumes "get_payday_schedule env year advance_day mode amount wda = Inr s"
    and "get_holidays_and_short_days env year = Inr hols"
  shows "valid_date (december_salary_nominal year advance_day) \<and>
     get_previous_working_day (december_salary_nominal year advance_day) hols =
       Inr (item_date (s ! 23))"
proof -
  from get_payday_schedule_InrE[OF assms(1)] assms(2) have
    "payday_month env (projr (get_work_calendar env year)) hols year advance_day mode amount wda 12 =
       Inr (s ! nat (2 * 12 - 2), s ! nat (2 * 12 - 1))"
    by (metis Inr_inject sum.sel(2) order_refl one_le_numeral)
  then have p: "payday_month env (projr (get_work_calendar env year)) hols year advance_day mode
      amount wda 12 = Inr (s ! 22, s ! 23)"
    by simp
  from p obtain moved where
    "salary_payment_date year advance_day hols 12 = Inr (item_date (s ! 23), moved)"
    by (elim payday_month_InrE) simp
  from december_salary_date_search[OF this] show ?thesis .
qed

lemma in_january_iff:
  assumes v: "valid_date nominal" and n: "date_month nominal = 1"
    and r: "get_previous_working_day nominal hols = Inr d"
  shows "(date_year d = date_year nominal \<and> date_month d = 1) \<longleftrightarrow>
     (\<exists>k. 1 \<le> k \<and> k \<le> date_day nominal \<and>
        is_working_day hols \<lparr>date_year = date_year nominal, date_month = 1, date_day = k\<rparr>)"
proof -
  from gpwd_spec[OF v, of hols] r have
    d: "valid_date d" "date_le d nominal" "is_working_day hols d" and
    latest: "\<And>w. valid_date w \<Longrightarrow> date_le w nominal \<Longrightarrow> is_working_day hols w \<Longrightarrow> date_le w d"
    by auto
  show ?thesis
  proof
    assume j: "date_year d = date_year nominal \<and> date_month d = 1"
    then have e: "\<lparr>date_year = date_year nominal, date_month = 1, date_day = date_day d\<rparr> = d"
      by (simp add: date_eq_iff)
    have "is_working_day hols
        \<lparr>date_year = date_year nominal, date_month = 1, date_day = date_day d\<rparr>"
      unfolding e by (rule d(3))
    moreover from d(1,2) j n have "1 \<le> date_day d \<and> date_day d \<le> date_day nominal"
      by (auto simp: valid_date_def date_le_def)
    ultimately have "1 \<le> date_day d \<and> date_day d \<le> date_day nominal \<and>
        is_working_day hols
          \<lparr>date_year = date_year nominal, date_month = 1, date_day = date_day d\<rparr>"
      by simp
    then show "\<exists>k. 1 \<le> k \<and> k \<le> date_day nominal \<and>
        is_working_day hols \<lparr>date_year = date_year nominal, date_month = 1, date_day = k\<rparr>"
      by blast
  next
    assume "\<exists>k. 1 \<le> k \<and> k \<le> date_day nominal \<and>
        is_working_day hols \<lparr>date_year = date_year nominal, date_month = 1, date_day = k\<rparr>"
    then obtain k where k: "1 \<le> k" "k \<le> date_day nominal"
      "is_working_day hols \<lparr>date_year = date_year nominal, date_month = 1, date_day = k\<rparr>"
      by blast
    let ?w = "\<lparr>date_year = date_year nominal, date_month = 1, date_day = k\<rparr>"
    from v n k have "valid_date ?w" "date_le ?w nominal"
      by (auto simp: valid_date_def date_le_def)
    from latest[OF this k(3)] d(2) n d(1) show "date_year d = date_year nominal \<and> date_month d = 1"
      by (auto simp: date_le_def valid_date_def)
  qed
qed

subsection \<open>Evaluation on the concrete services\<close>

lemmas date_eval =
  is_holiday_def is_weekend_def is_working_day_def weekday_def toordinal_def ymd2ord_def
  days_before_year_def days_before_month_def DAYS_BEFORE_MONTH_def is_leap_def
  days_in_month_def sub_day_def add_day_def mk_date_def valid_date_def date_le_def
  last_day_of_def year_bounds new_year_holidays_def upto.simps
  get_previous_working_day.simps count_working_days.simps

lemmas month_eval =
  payday_month_def advance_payment_date_def salary_payment_date_def
  first_half_working_days_def period_working_days_def list_index_def Let_def

lemma working_day_before_2025:
  "valid_date \<lparr>date_year = 2024, date_month = 12, date_day = 31\<rparr> \<and>
   date_le \<lparr>date_year = 2024, date_month = 12, date_day = 31\<rparr>
     \<lparr>date_year = 2025, date_month = 1, date_day = 1\<rparr> \<and>
   is_working_day (new_year_holidays 2025) \<lparr>date_year = 2024, date_month = 12, date_day = 31\<rparr>"
  by (simp add: date_eval)

lemma calendar_2025_complete: "calendar_complete (calendar_of working_days_2025)"
  by (simp add: calendar_complete_def calendar_of_def working_days_2025_def upto.simps)

lemma services_2025_fetch:
  "get_work_calendar services_2025 2025 = Inr (calendar_of working_days_2025)"
  "get_holidays_and_short_days services_2025 2025 = Inr (new_year_holidays 2025)"
  by (simp_all add: services_2025_def services_of_def)

lemma january_2025_items:
  "payday_month services_2025 (calendar_of working_days_2025) (new_year_holidays 2025)
     2025 25 Gross 60000 None 1 =
   Inr (\<lparr>item_date = \<lparr>date_year = 2025, date_month = 1, date_day = 24\<rparr>,
          it_is = Advance, working_days = 5, max_working_days = 5,
          item_salary = \<lparr>before_tax = 300000 / 17, tax = 39000 / 17, after_tax = 261000 / 17\<rparr>,
          date_was_moved = True\<rparr>,
        \<lparr>item_date = \<lparr>date_year = 2025, date_month = 2, date_day = 10\<rparr>,
          it_is = Salary, working_days = 12, max_working_days = 12,
          item_salary = \<lparr>before_tax = 720000 / 17, tax = 93600 / 17, after_tax = 626400 / 17\<rparr>,
          date_was_moved = False\<rparr>)"
  by (simp add: month_eval date_eval calculate_salary_eval)

lemma schedule_2025_january:
  "\<exists>s. get_payday_schedule services_2025 2025 25 Gross 60000 None = Inr s \<and>
     s ! 0 = \<lparr>item_date = \<lparr>date_year = 2025, date_month = 1, date_day = 24\<rparr>,
          it_is = Advance, working_days = 5, max_working_days = 5,
          item_salary = \<lparr>before_tax = 300000 / 17, tax = 39000 / 17, after_tax = 261000 / 17\<rparr>,
          date_was_moved = True\<rparr> \<and>
     s ! 1 = \<lparr>item_date = \<lparr>date_year = 2025, date_month = 2, date_day = 10\<rparr>,
          it_is = Salary, working_days = 12, max_working_days = 12,
          item_salary = \<lparr>before_tax = 720000 / 17, tax = 93600 / 17, after_tax = 626400 / 17\<rparr>,
          date_was_moved = False\<rparr>"
proof -
  from working_day_before_2025 have w:
    "valid_date \<lparr>date_year = 2024, date_month = 12, date_day = 31\<rparr>"
    "date_le \<lparr>date_year = 2024, date_month = 12, date_day = 31\<rparr>
       \<lparr>date_year = 2025, date_month = 1, date_day = 1\<rparr>"
    "is_working_day (new_year_holidays 2025) \<lparr>date_year = 2024, date_month = 12, date_day = 31\<rparr>"
    by simp_all
  have "working_days_valid (calendar_of working_days_2025) None"
    by (simp add: working_days_valid_def)
  from get_payday_schedule_returns[OF _ _ _ w services_2025_fetch calendar_2025_complete this,
      of 25 Gross 60000]
  obtain s where s: "get_payday_schedule services_2025 2025 25 Gross 60000 None = Inr s"
    by auto
  from get_payday_schedule_InrE[OF s] obtain calendar hols where
    "get_work_calendar services_2025 2025 = Inr calendar"
    "get_holidays_and_short_days services_2025 2025 = Inr hols"
    "\<And>m. 1 \<le> m \<Longrightarrow> m \<le> 12 \<Longrightarrow>
       payday_month services_2025 calendar hols 2025 25 Gross 60000 None m =
         Inr (s ! nat (2 * m - 2), s ! nat (2 * m - 1))"
    by blast
  from this(3)[of 1] this(1,2) have
    "payday_month services_2025 (calendar_of working_days_2025) (new_year_holidays 2025)
       2025 25 Gross 60000 None 1 = Inr (s ! 0, s ! 1)"
    by (simp add: services_2025_fetch)
  with january_2025_items s show ?thesis by simp
qed

lemma working_day_before_2022:
  "valid_date \<lparr>date_year = 2021, date_month = 12, date_day = 31\<rparr> \<and>
   date_le \<lparr>date_year = 2021, date_month = 12, date_day = 31\<rparr>
     \<lparr>date_year = 2022, date_month = 1, date_day = 1\<rparr> \<and>
   is_working_day (new_year_holidays 2022) \<lparr>date_year = 2021, date_month = 12, date_day = 31\<rparr>"
  by (simp add: date_eval)

lemma calendar_2022_complete: "calendar_complete (calendar_of working_days_2022)"
  by (simp add: calendar_complete_def calendar_of_def working_days_2022_def upto.simps)

lemma services_2022_fetch:
  "get_work_calendar services_2022 2022 = Inr (calendar_of working_days_2022)"
  "get_holidays_and_short_days services_2022 2022 = Inr (new_year_holidays 2022)"
  by (simp_all add: services_2022_def services_of_def)

lemma schedule_item_Inr:
  "r = Inr s \<Longrightarrow> i < length s \<Longrightarrow> schedule_item r i = Some (s ! i)"
  by (simp add: schedule_item_def)





subsection \<open>The backward search\<close>

text \<open>
  Claim C10, as stated: for every starting date and holiday list the search returns the
  latest working day on or before the start. Dates end at the first of January of year 1,
  which is a Monday: when that day is a holiday, the search from it has nowhere to go, and
  the step back raises \<^verbatim>\<open>OverflowError\<close>.
\<close>

theorem previous_working_day_overflow_counterexample:
  "valid_date \<lparr>date_year = 1, date_month = 1, date_day = 1\<rparr> \<and>
   get_previous_working_day \<lparr>date_year = 1, date_month = 1, date_day = 1\<rparr>
     (new_year_holidays 1) = Inl OverflowError"
  by (simp add: date_eval)

text \<open>
  Claim C10, amended. The search ends for every starting date and holiday list (the function
  is total). When it returns, the date is a working day on or before the start, and every
  working day on or before the start is on or before it: it is the latest one. It fails only
  with \<^verbatim>\<open>OverflowError\<close>, and exactly when no date on or before the start is a working
  day.
\<close>

theorem previous_working_day_latest:
  assumes "valid_date start"
  shows "case get_previous_working_day start hols of
           Inr d \<Rightarrow> valid_date d \<and> date_le d start \<and> is_working_day hols d \<and>
                    (\<forall>w. valid_date w \<and> date_le w start \<and> is_working_day hols w \<longrightarrow> date_le w d)
         | Inl e \<Rightarrow> e = OverflowError \<and>
                    (\<forall>w. valid_date w \<and> date_le w start \<longrightarrow> \<not> is_working_day hols w)"
  using assms by (rule gpwd_spec)

theorem previous_working_day_latest_witness:
  "valid_date \<lparr>date_year = 2025, date_month = 1, date_day = 25\<rparr> \<and>
   get_previous_working_day \<lparr>date_year = 2025, date_month = 1, date_day = 25\<rparr>
     (new_year_holidays 2025) = Inr \<lparr>date_year = 2025, date_month = 1, date_day = 24\<rparr> \<and>
   is_working_day (new_year_holidays 2025) \<lparr>date_year = 2025, date_month = 1, date_day = 24\<rparr> \<and>
   date_le \<lparr>date_year = 2025, date_month = 1, date_day = 24\<rparr>
     \<lparr>date_year = 2025, date_month = 1, date_day = 25\<rparr>"
proof -
  have v: "valid_date \<lparr>date_year = 2025, date_month = 1, date_day = 25\<rparr>"
    by (simp add: date_eval)
  have r: "get_previous_working_day \<lparr>date_year = 2025, date_month = 1, date_day = 25\<rparr>
     (new_year_holidays 2025) = Inr \<lparr>date_year = 2025, date_month = 1, date_day = 24\<rparr>"
    by (simp add: date_eval)
  from previous_working_day_latest [OF v, of "new_year_holidays 2025"] v r show ?thesis by simp
qed

subsection \<open>The schedule\<close>




text \<open>
  Claim C2. For every month \<open>m\<close> from 1 to 12, the salary item of month \<open>m\<close> in a returned
  schedule carries the result of \<^verbatim>\<open>calculate_salary\<close> called with the month \<open>m\<close> itself
  and the item's working days, so the working days of month \<open>m\<close> are the denominator of the
  daily rate although the payment date is in the month after.
\<close>

theorem salary_leg_uses_origin_month:
  assumes "get_payday_schedule env year advance_day mode amount wda = Inr s"
    and "1 \<le> m" "m \<le> 12"
  shows "it_is (s ! nat (2 * m - 1)) = Salary \<and>
     calculate_salary env m year (working_days (s ! nat (2 * m - 1))) amount mode =
       Inr (item_salary (s ! nat (2 * m - 1)))"
proof -
  from get_payday_schedule_InrE[OF assms(1)] obtain calendar hols where
    "payday_month env calendar hols year advance_day mode amount wda m =
       Inr (s ! nat (2 * m - 2), s ! nat (2 * m - 1))"
    using assms(2,3) by blast
  then show ?thesis by (elim payday_month_InrE) simp
qed

theorem salary_leg_uses_origin_month_witness:
  "\<exists>s. get_payday_schedule services_2025 2025 25 Gross 60000 None = Inr s \<and>
     item_date (s ! 1) = \<lparr>date_year = 2025, date_month = 2, date_day = 10\<rparr> \<and>
     working_days (s ! 1) = 12 \<and>
     calculate_salary services_2025 1 2025 12 60000 Gross = Inr (item_salary (s ! 1)) \<and>
     item_salary (s ! 1) =
       \<lparr>before_tax = 720000 / 17, tax = 93600 / 17, after_tax = 626400 / 17\<rparr> \<and>
     calculate_salary services_2025 2 2025 12 60000 Gross =
       Inr \<lparr>before_tax = 36000, tax = 4680, after_tax = 31320\<rparr>"
proof -
  from schedule_2025_january obtain s where
    s: "get_payday_schedule services_2025 2025 25 Gross 60000 None = Inr s" and
    s1: "s ! 1 = \<lparr>item_date = \<lparr>date_year = 2025, date_month = 2, date_day = 10\<rparr>,
          it_is = Salary, working_days = 12, max_working_days = 12,
          item_salary =
            \<lparr>before_tax = 720000 / 17, tax = 93600 / 17, after_tax = 626400 / 17\<rparr>,
          date_was_moved = False\<rparr>"
    by blast
  have feb: "calculate_salary services_2025 2 2025 12 60000 Gross =
       Inr \<lparr>before_tax = 36000, tax = 4680, after_tax = 31320\<rparr>"
    by (simp add: calculate_salary_eval)
  from salary_leg_uses_origin_month [OF s, of 1] s s1 feb show ?thesis
    by auto
qed

text \<open>
  Claim C8. In every returned schedule, with the default working days as well as with a
  \<^verbatim>\<open>working_days\<close> argument that passed the checks, the working days of the advance item
  and of the salary item of month \<open>m\<close> add up to at most the working days that the calendar
  has for month \<open>m\<close>.
\<close>

theorem working_days_within_month:
  assumes "get_payday_schedule env year advance_day mode amount wda = Inr s"
    and "1 \<le> m" "m \<le> 12"
  shows "\<exists>calendar month_info.
     get_work_calendar env year = Inr calendar \<and> calendar m = Some month_info \<and>
     working_days (s ! nat (2 * m - 2)) + working_days (s ! nat (2 * m - 1))
       \<le> workingDays month_info"
proof -
  from get_payday_schedule_InrE[OF assms(1)] obtain calendar hols where
    c: "get_work_calendar env year = Inr calendar" and
    "payday_month env calendar hols year advance_day mode amount wda m =
       Inr (s ! nat (2 * m - 2), s ! nat (2 * m - 1))"
    using assms(2,3) by blast
  from this(2) show ?thesis
  proof (rule payday_month_InrE)
    fix adv_days sal_days max_adv month_info advance_date advance_moved salary_date salary_moved
      advance_salary salary_salary
    assume "calendar m = Some month_info"
      and "period_working_days wda m (workingDays month_info) max_adv
           (workingDays month_info - max_adv) = Inr (adv_days, sal_days)"
      and "s ! nat (2 * m - 2) = \<lparr>item_date = advance_date, it_is = Advance, working_days = adv_days,
              max_working_days = max_adv, item_salary = advance_salary,
              date_was_moved = advance_moved\<rparr>"
      and "s ! nat (2 * m - 1) = \<lparr>item_date = salary_date, it_is = Salary, working_days = sal_days,
              max_working_days = workingDays month_info - max_adv,
              item_salary = salary_salary, date_was_moved = salary_moved\<rparr>"
    with period_working_days_le c show ?thesis by fastforce
  qed
qed

theorem working_days_within_month_witness:
  "\<exists>s. get_payday_schedule services_2025 2025 25 Gross 60000 None = Inr s \<and>
     working_days (s ! 0) = 5 \<and> working_days (s ! 1) = 12 \<and>
     working_days (s ! 0) + working_days (s ! 1) \<le> 17"
proof -
  from schedule_2025_january obtain s where
    s: "get_payday_schedule services_2025 2025 25 Gross 60000 None = Inr s" and
    "working_days (s ! 0) = 5" "working_days (s ! 1) = 12"
    by force
  moreover from working_days_within_month [OF s, of 1]
  have "working_days (s ! 0) + working_days (s ! 1) \<le> 17"
    by (auto simp: services_2025_fetch calendar_of_def working_days_2025_def)
  ultimately show ?thesis by blast
qed

text \<open>
  Claim C4, as stated: for every year and advance day the salary item of December is dated
  in January of the next year. For 2022 and an advance day of 16 the nominal date is
  2023-01-01, a Sunday, and the backward search leaves January: the payment is dated
  2022-12-30.
\<close>

theorem december_salary_in_december_counterexample:
  "map_option item_date
     (schedule_item (get_payday_schedule services_2022 2022 16 Gross 60000 None) 23) =
   Some \<lparr>date_year = 2022, date_month = 12, date_day = 30\<rparr>"
proof -
  have "working_days_valid (calendar_of working_days_2022) None"
    by (simp add: working_days_valid_def)
  with get_payday_schedule_returns[of 2022 16 "\<lparr>date_year = 2021, date_month = 12, date_day = 31\<rparr>"
      "new_year_holidays 2022" services_2022 "calendar_of working_days_2022" None Gross 60000]
    working_day_before_2022 services_2022_fetch calendar_2022_complete
  obtain s where s: "get_payday_schedule services_2022 2022 16 Gross 60000 None = Inr s"
    by auto
  from get_payday_schedule_InrE[OF s] have len: "length s = 24" by blast
  have "get_previous_working_day (december_salary_nominal 2022 16) (new_year_holidays 2022) =
      Inr \<lparr>date_year = 2022, date_month = 12, date_day = 30\<rparr>"
    by (simp add: december_salary_nominal_def date_eval)
  with december_salary_item[OF s services_2022_fetch(2)]
  have "item_date (s ! 23) = \<lparr>date_year = 2022, date_month = 12, date_day = 30\<rparr>"
    by simp
  with s len show ?thesis by (simp add: schedule_item_def)
qed

text \<open>
  Claim C4, amended. In a returned schedule the date of the salary item of December is the
  result of the backward search from the nominal date, which is the day
  \<^verbatim>\<open>advance_day - 15\<close> (at least 1, at most 31) of January of the next year. It is on or
  before that nominal date, and it lies in January of the next year exactly when one of
  the days of that January from the first to the nominal day is neither a weekend day nor
  in the holiday list fetched for the year.
\<close>

theorem december_salary_date:
  assumes "get_payday_schedule env year advance_day mode amount wda = Inr s"
    and "get_holidays_and_short_days env year = Inr hols"
  shows "get_previous_working_day (december_salary_nominal year advance_day) hols =
       Inr (item_date (s ! 23)) \<and>
     date_le (item_date (s ! 23)) (december_salary_nominal year advance_day) \<and>
     ((date_year (item_date (s ! 23)) = year + 1 \<and> date_month (item_date (s ! 23)) = 1) \<longleftrightarrow>
      (\<exists>k. 1 \<le> k \<and> k \<le> date_day (december_salary_nominal year advance_day) \<and>
         is_working_day hols \<lparr>date_year = year + 1, date_month = 1, date_day = k\<rparr>))"
proof -
  let ?n = "december_salary_nominal year advance_day"
  from december_salary_item[OF assms] have
    v: "valid_date ?n" and r: "get_previous_working_day ?n hols = Inr (item_date (s ! 23))"
    by simp_all
  have n: "date_month ?n = 1" "date_year ?n = year + 1"
    by (simp_all add: december_salary_nominal_def)
  from gpwd_spec[OF v, of hols] r have "date_le (item_date (s ! 23)) ?n" by simp
  with r in_january_iff[OF v n(1) r] n(2) show ?thesis by simp
qed

theorem december_salary_date_witness:
  "\<exists>s. get_payday_schedule services_2025 2025 25 Gross 60000 None = Inr s \<and>
     december_salary_nominal 2025 25 = \<lparr>date_year = 2026, date_month = 1, date_day = 10\<rparr> \<and>
     item_date (s ! 23) = \<lparr>date_year = 2026, date_month = 1, date_day = 9\<rparr> \<and>
     is_working_day (new_year_holidays 2025) \<lparr>date_year = 2026, date_month = 1, date_day = 9\<rparr>"
proof -
  from schedule_2025_january obtain s where
    s: "get_payday_schedule services_2025 2025 25 Gross 60000 None = Inr s"
    by blast
  have "get_previous_working_day (december_salary_nominal 2025 25) (new_year_holidays 2025) =
      Inr \<lparr>date_year = 2026, date_month = 1, date_day = 9\<rparr>"
    by (simp add: december_salary_nominal_def date_eval)
  with conjunct1 [OF december_salary_date [OF s services_2025_fetch(2)]]
  have "item_date (s ! 23) = \<lparr>date_year = 2026, date_month = 1, date_day = 9\<rparr>"
    by simp
  moreover have
    "december_salary_nominal 2025 25 = \<lparr>date_year = 2026, date_month = 1, date_day = 10\<rparr>"
    by (simp add: december_salary_nominal_def)
  moreover have "is_working_day (new_year_holidays 2025)
      \<lparr>date_year = 2026, date_month = 1, date_day = 9\<rparr>"
    by (simp add: date_eval)
  ultimately show ?thesis using s by blast
qed







end
